theory Spec2Isabelle
  imports Complex_Main "HOL-Library.Multiset"
begin

section \<open>Python string and path primitives\<close>

text \<open>
  \<open>startswith s k\<close> is Python's \<^verbatim>\<open>s.startswith(k)\<close> and \<open>str_in k s\<close> is the
  substring test \<^verbatim>\<open>k in s\<close> on \<^verbatim>\<open>str\<close>.
\<close>

fun startswith :: "string \<Rightarrow> string \<Rightarrow> bool" where
  "startswith s [] = True"
| "startswith [] (k # ks) = False"
| "startswith (c # cs) (k # ks) = (c = k \<and> startswith cs ks)"

fun str_in :: "string \<Rightarrow> string \<Rightarrow> bool" where
  "str_in k [] = (k = [])"
| "str_in k (c # cs) = (startswith (c # cs) k \<or> str_in k cs)"

text \<open>\<^verbatim>\<open>os.path.basename(p)\<close> on POSIX: everything after the last slash.\<close>

definition basename :: "string \<Rightarrow> string" where
  "basename p = rev (takeWhile (\<lambda>c. c \<noteq> CHR ''/'') (rev p))"

text \<open>
  \<^verbatim>\<open>pathlib.Path(p)\<close> on POSIX splits at slashes and drops empty and \<^verbatim>\<open>.\<close>
  components; \<^verbatim>\<open>.name\<close> is the last component (the empty string when there is none)
  and \<^verbatim>\<open>.parent.name\<close> the one before it.
\<close>

fun split_sep :: "string \<Rightarrow> string list" where
  "split_sep [] = [[]]"
| "split_sep (c # cs) =
     (if c = CHR ''/'' then [] # split_sep cs
      else (case split_sep cs of [] \<Rightarrow> [[c]] | w # ws \<Rightarrow> (c # w) # ws))"

definition path_parts :: "string \<Rightarrow> string list" where
  "path_parts p = filter (\<lambda>w. w \<noteq> [] \<and> w \<noteq> ''.'') (split_sep p)"

definition path_name :: "string \<Rightarrow> string" where
  "path_name p = (case rev (path_parts p) of [] \<Rightarrow> [] | n # _ \<Rightarrow> n)"

definition parent_name :: "string \<Rightarrow> string" where
  "parent_name p = (case rev (path_parts p) of _ # d # _ \<Rightarrow> d | _ \<Rightarrow> [])"

text \<open>The exceptions the two scripts can meet, and the lines they print.\<close>

datatype py_error = ParserError | KeyError string | BadZipFile | NotADirectoryError string

datatype log_event =
    Found_metric_files nat
  | Error_reading string py_error
  | No_data_found
  | No_data_for string
  | Missing_from string "string list"
  | No_valid_algorithms string
  | Saved string
  | Does_not_exist string
  | Loading
  | Generating
  | Done
  | Found_trajectory_files nat
  | Error_loading string py_error
  | No_truth_trajectory string

section \<open>The catalog, shared by both scripts\<close>

definition ALGORITHMS :: "string list" where
  "ALGORITHMS = [''FGO'', ''TM'', ''EKF'', ''UKF'', ''IEKF'', ''DVL'']"

section \<open>traj_bench_plot.py\<close>

definition NAME_MAPPING_bench :: "(string \<times> string) list" where
  "NAME_MAPPING_bench =
     [(''global'', ''FGO''), (''global_tm'', ''TM''), (''global_ekf'', ''EKF''),
      (''global_ukf'', ''UKF''), (''global_iekf'', ''IEKF''), (''dvl'', ''DVL'')]"

definition METRICS_CONFIG :: "(string \<times> string \<times> string) list" where
  "METRICS_CONFIG =
     [(''benchmark_ape_trans.csv'', ''APE Translation RMSE (m)'', ''ape_trans''),
      (''benchmark_ape_rot.csv'', ''APE Rotation RMSE (deg)'', ''ape_rot''),
      (''benchmark_rpe_trans.csv'', ''RPE Translation RMSE (m/m)'', ''rpe_trans''),
      (''benchmark_rpe_rot.csv'', ''RPE Rotation RMSE (deg/m)'', ''rpe_rot'')]"

text \<open>
  A row appended to the store is the dict \<^verbatim>\<open>{"Algorithm": label, "RMSE": value}\<close>. The
  label type is a parameter because \<^verbatim>\<open>generate_plots\<close> later replaces the column by a
  categorical one, whose entries are a category or NaN.
\<close>

record ('l, 'v) metric_row =
  Algorithm :: 'l
  RMSE :: 'v

text \<open>
  What \<^verbatim>\<open>pd.read_csv(f, index_col=0)\<close> gives: the column names and, for each row, its
  index value and its cells. \<^verbatim>\<open>row["rmse"]\<close> looks the cell up by column name.
\<close>

datatype 'v dataframe = DataFrame (columns: "string list") (rows: "(string \<times> 'v list) list")

record 'v table_file =
  csv_path :: string
  read_csv :: "py_error + 'v dataframe"

type_synonym 'v data_store = "(string \<times> (string, 'v) metric_row list) list"

text \<open>
  The body of \<^verbatim>\<open>for algo_key, row in df.iterrows()\<close>, appending to the list of the
  file's kind. An exception leaves the loop with what was appended so far.
\<close>

fun iterrows :: "string list \<Rightarrow> (string \<times> 'v list) list \<Rightarrow> (string, 'v) metric_row list
    \<Rightarrow> py_error option \<times> (string, 'v) metric_row list" where
  "iterrows cols [] acc = (None, acc)"
| "iterrows cols ((algo_key, cells) # rest) acc =
     (let label = (case map_of NAME_MAPPING_bench algo_key of Some l \<Rightarrow> l | None \<Rightarrow> algo_key)
      in if label \<in> set ALGORITHMS then
           (case map_of (zip cols cells) ''rmse'' of
              None \<Rightarrow> (Some (KeyError ''rmse''), acc)
            | Some v \<Rightarrow> iterrows cols rest (acc @ [\<lparr>Algorithm = label, RMSE = v\<rparr>]))
         else iterrows cols rest acc)"

definition store_set :: "string \<Rightarrow> 'a \<Rightarrow> (string \<times> 'a) list \<Rightarrow> (string \<times> 'a) list" where
  "store_set k v al = map (\<lambda>(k', v'). if k' = k then (k', v) else (k', v')) al"

text \<open>The body of \<^verbatim>\<open>for f in files\<close>: the store and the printed lines, before and after.\<close>

definition load_file :: "'v table_file \<Rightarrow> 'v data_store \<times> log_event list
    \<Rightarrow> 'v data_store \<times> log_event list" where
  "load_file f st =
     (let data_store = fst st; log = snd st; filename = basename (csv_path f) in
      case map_of data_store filename of
        None \<Rightarrow> (data_store, log)
      | Some recs \<Rightarrow>
          (case read_csv f of
             Inl e \<Rightarrow> (data_store, log @ [Error_reading (csv_path f) e])
           | Inr df \<Rightarrow>
               (case iterrows (columns df) (rows df) recs of
                  (None, recs') \<Rightarrow> (store_set filename recs' data_store, log)
                | (Some e, recs') \<Rightarrow>
                    (store_set filename recs' data_store,
                     log @ [Error_reading (csv_path f) e]))))"

definition load_data :: "'v table_file list \<Rightarrow> 'v data_store \<times> log_event list" where
  "load_data files =
     (let data_store = map (\<lambda>cfg. (fst cfg, [])) METRICS_CONFIG;
          st = fold load_file files (data_store, [Found_metric_files (length files)])
      in (filter (\<lambda>(k, v). v \<noteq> []) (fst st), snd st))"

text \<open>
  \<^verbatim>\<open>Series.unique()\<close> keeps the first occurrence of each value; only membership in it
  is used below.
\<close>

definition unique :: "'a list \<Rightarrow> 'a list" where
  "unique xs = rev (remdups (rev xs))"

text \<open>
  \<^verbatim>\<open>pd.Categorical(values, categories=cats, ordered=True)\<close>: a value outside the
  categories becomes NaN (here \<open>None\<close>); the order of the column is the position in
  \<open>cats\<close>, and \<^verbatim>\<open>sort_values\<close> puts NaN last.
\<close>

definition Categorical :: "string list \<Rightarrow> string \<Rightarrow> string option" where
  "Categorical cats l = (if l \<in> set cats then Some l else None)"

fun index_of :: "'a list \<Rightarrow> 'a \<Rightarrow> nat" where
  "index_of [] x = 0"
| "index_of (y # ys) x = (if x = y then 0 else Suc (index_of ys x))"

definition cat_code :: "string list \<Rightarrow> string option \<Rightarrow> nat" where
  "cat_code cats c = (case c of None \<Rightarrow> length cats | Some l \<Rightarrow> index_of cats l)"

text \<open>
  \<^verbatim>\<open>df.sort_values("Algorithm")\<close>. Its default sorting kind is quicksort, which promises
  a sorted permutation and nothing on the relative order of rows with equal labels; on the
  short partitions (up to 16 rows) numpy sorts by insertion, which keeps that order. The
  model is the insertion sort \<open>sort_key\<close>; the theorems below speak of the label column
  and of the rows as a multiset, which every sorting kind determines.
\<close>

definition sort_values :: "string list \<Rightarrow> (string option, 'v) metric_row list
    \<Rightarrow> (string option, 'v) metric_row list" where
  "sort_values cats df = sort_key (\<lambda>r. cat_code cats (Algorithm r)) df"

text \<open>What one seaborn call followed by \<^verbatim>\<open>plt.savefig\<close> receives.\<close>

record 'v plot_request =
  plot_type :: string
  x_categories :: "string list"
  data :: "(string option, 'v) metric_row list"
  ylabel :: string
  save_path :: string

text \<open>The body of \<^verbatim>\<open>for filename, label, suffix in METRICS_CONFIG\<close>.\<close>

definition plot_metric :: "'v data_store \<Rightarrow> string \<Rightarrow> string \<times> string \<times> string
    \<Rightarrow> 'v plot_request list \<times> log_event list" where
  "plot_metric data_map output_dir cfg =
     (let filename = fst cfg; label = fst (snd cfg); suffix = snd (snd cfg) in
      case map_of data_map filename of
        None \<Rightarrow> ([], [No_data_for filename])
      | Some df \<Rightarrow>
          (let unique_algos = unique (map Algorithm df);
               present_algos = filter (\<lambda>algo. algo \<in> set unique_algos) ALGORITHMS;
               missing_algos = filter (\<lambda>algo. algo \<notin> set unique_algos) ALGORITHMS;
               log = (if missing_algos \<noteq> [] then [Missing_from filename missing_algos] else [])
           in if present_algos = [] then ([], log @ [No_valid_algorithms filename])
              else
                (let df' = sort_values present_algos
                       (map (\<lambda>r. \<lparr>Algorithm = Categorical present_algos (Algorithm r),
                                  RMSE = RMSE r\<rparr>) df);
                     reqs = map (\<lambda>pt. \<lparr>plot_type = pt, x_categories = present_algos, data = df',
                                  ylabel = label,
                                  save_path = output_dir @ ''/'' @ pt @ ''_'' @ suffix @ ''.png''\<rparr>)
                              [''violin'', ''box'']
                 in (reqs, log @ map (\<lambda>r. Saved (save_path r)) reqs))))"

definition generate_plots :: "'v data_store \<Rightarrow> string
    \<Rightarrow> 'v plot_request list \<times> log_event list" where
  "generate_plots data_map output_dir =
     (if data_map = [] then ([], [No_data_found])
      else (let outs = map (plot_metric data_map output_dir) METRICS_CONFIG
            in (concat (map fst outs), concat (map snd outs))))"

text \<open>
  The file system as \<^verbatim>\<open>main\<close> of this script sees it: whether the root exists and
  what the recursive glob for \<^verbatim>\<open>benchmark_*.csv\<close> returns, in its order.
\<close>

record 'v bench_env =
  bags_dir :: string
  bags_dir_exists :: bool
  glob_csv :: "'v table_file list"

definition main_bench :: "'v bench_env \<Rightarrow> 'v plot_request list \<times> log_event list" where
  "main_bench env =
     (if \<not> bags_dir_exists env then ([], [Does_not_exist (bags_dir env)])
      else (let loaded = load_data (glob_csv env);
                plots = generate_plots (fst loaded) (bags_dir env)
            in (fst plots, [Loading] @ snd loaded @ [Generating] @ snd plots @ [Done])))"

section \<open>traj_plot.py\<close>

definition NAME_MAPPING_traj :: "(string \<times> string) list" where
  "NAME_MAPPING_traj =
     [(''fgo'', ''FGO''), (''tm'', ''TM''), (''ekf'', ''EKF''),
      (''ukf'', ''UKF''), (''iekf'', ''IEKF''), (''dvl'', ''DVL'')]"

text \<open>
  What \<^verbatim>\<open>file_interface.load_res_file(z, load_trajectories=True)\<close> gives: the
  \<^verbatim>\<open>info\<close> dict and the \<^verbatim>\<open>trajectories\<close> dict. A trajectory is opaque here.
\<close>

record 't evo_result =
  info :: "string \<rightharpoonup> string"
  trajectories :: "string \<rightharpoonup> 't"

record 't zip_file =
  zip_path :: string
  load_res_file :: "py_error + 't evo_result"

text \<open>
  The inner loop \<^verbatim>\<open>for key, mapped_name in NAME_MAPPING.items()\<close> with its
  \<^verbatim>\<open>break\<close>; \<open>None\<close> is the initial \<^verbatim>\<open>algo_label = None\<close>.
\<close>

fun match_key :: "(string \<times> string) list \<Rightarrow> string \<Rightarrow> string option" where
  "match_key [] parent = None"
| "match_key ((key, mapped_name) # rest) parent =
     (if str_in key parent then Some mapped_name else match_key rest parent)"

record 't traj_state =
  est_trajs :: "string \<rightharpoonup> 't"
  gt_traj :: "'t option"
  printed :: "log_event list"

text \<open>
  The body of \<^verbatim>\<open>for z in zips\<close>. The two module constants it reads,
  \<^verbatim>\<open>NAME_MAPPING\<close> and \<^verbatim>\<open>ALGORITHMS\<close>, are parameters, so that the two gates
  can be stated for any mapping and catalog; \<open>load_trajectories\<close> passes the constants.
  Every statement that can raise comes before the two assignments, so an exception leaves
  the trajectories as they were.
\<close>

definition load_zip :: "(string \<times> string) list \<Rightarrow> string list \<Rightarrow> 't zip_file
    \<Rightarrow> 't traj_state \<Rightarrow> 't traj_state" where
  "load_zip name_mapping algorithms z st =
     (if \<not> str_in ''ape_trans'' (zip_path z) then st
      else
        (case match_key name_mapping (parent_name (zip_path z)) of
           None \<Rightarrow> st
         | Some algo_label \<Rightarrow>
             if algo_label \<notin> set algorithms then st
             else
               (case load_res_file z of
                  Inl e \<Rightarrow> st\<lparr>printed := printed st @ [Error_loading (zip_path z) e]\<rparr>
                | Inr res \<Rightarrow>
                    (case info res ''ref_name'' of
                       None \<Rightarrow> st\<lparr>printed := printed st
                                  @ [Error_loading (zip_path z) (KeyError ''ref_name'')]\<rparr>
                     | Some ref_name \<Rightarrow>
                         (case info res ''est_name'' of
                            None \<Rightarrow> st\<lparr>printed := printed st
                                       @ [Error_loading (zip_path z) (KeyError ''est_name'')]\<rparr>
                          | Some est_name \<Rightarrow>
                              (let ref_id = path_name ref_name;
                                   est_id = path_name est_name;
                                   st1 = (case gt_traj st of
                                            None \<Rightarrow> st\<lparr>gt_traj := trajectories res ref_id\<rparr>
                                          | Some g \<Rightarrow> st)
                               in case trajectories res est_id of
                                    None \<Rightarrow> st1
                                  | Some t \<Rightarrow>
                                      st1\<lparr>est_trajs := (est_trajs st1)(algo_label \<mapsto> t)\<rparr>))))))"

definition load_trajectories :: "'t zip_file list \<Rightarrow> 't traj_state" where
  "load_trajectories zips =
     fold (load_zip NAME_MAPPING_traj ALGORITHMS) zips
       \<lparr>est_trajs = Map.empty, gt_traj = None,
        printed = [Found_trajectory_files (length zips)]\<rparr>"

text \<open>
  What the drawing part of \<^verbatim>\<open>plot_auv\<close> receives: the estimated trajectories in the
  order of \<^verbatim>\<open>for algo in ALGORITHMS\<close>, the ground truth, and the file to save.
\<close>

record 't traj_request =
  estimated :: "(string \<times> 't) list"
  ground_truth :: 't
  output_path :: string

definition plot_auv :: "'t zip_file list \<Rightarrow> string \<Rightarrow> string
    \<Rightarrow> 't traj_request list \<times> log_event list" where
  "plot_auv zips output_dir auv_name =
     (let st = load_trajectories zips;
          missing_algos = filter (\<lambda>algo. est_trajs st algo = None) ALGORITHMS;
          log = printed st @ (if missing_algos \<noteq> [] then [Missing_from auv_name missing_algos] else [])
      in case gt_traj st of
           None \<Rightarrow> ([], log @ [No_truth_trajectory auv_name])
         | Some gt \<Rightarrow>
             (let out = output_dir @ ''/'' @ auv_name @ ''_trajectories.png''
              in ([\<lparr>estimated = concat (map (\<lambda>algo. case est_trajs st algo of
                                                        None \<Rightarrow> [] | Some t \<Rightarrow> [(algo, t)]) ALGORITHMS),
                     ground_truth = gt, output_path = out\<rparr>],
                  log @ [Saved out])))"

text \<open>
  The directory tree as \<^verbatim>\<open>main\<close> of this script walks it. \<^verbatim>\<open>exists()\<close> holds of a
  regular file as well as of a directory, \<^verbatim>\<open>is_dir()\<close> of a directory only, and
  \<^verbatim>\<open>iterdir()\<close> of a regular file raises \<^verbatim>\<open>NotADirectoryError\<close>. For an agent
  directory the tree holds what the recursive glob for \<^verbatim>\<open>*.zip\<close> returns there.
\<close>

datatype 't agent_entry = Agent_file | Agent_dir "'t zip_file list"

datatype 't evo_entry = Evo_missing | Evo_file | Evo_dir "(string \<times> 't agent_entry) list"

datatype 't bag_entry = Bag_file | Bag_dir "'t evo_entry"

datatype 't bags_entry = Root_missing | Root_file | Root_dir "(string \<times> 't bag_entry) list"

text \<open>The loop \<^verbatim>\<open>for agent_dir in evo_dir.iterdir()\<close>.\<close>

fun agents_loop :: "string \<Rightarrow> (string \<times> 't agent_entry) list
    \<Rightarrow> 't traj_request list \<times> log_event list" where
  "agents_loop bag_dir [] = ([], [])"
| "agents_loop bag_dir ((name, Agent_file) # rest) = agents_loop bag_dir rest"
| "agents_loop bag_dir ((name, Agent_dir zips) # rest) =
     (let out = plot_auv zips bag_dir name; more = agents_loop bag_dir rest
      in (fst out @ fst more, snd out @ snd more))"

text \<open>
  The loop \<^verbatim>\<open>for bag_dir in bags_root.iterdir()\<close>. An exception of the body is caught
  nowhere: it ends the loop and the script, after what was saved and printed before.
\<close>

fun bags_loop :: "string \<Rightarrow> (string \<times> 't bag_entry) list
    \<Rightarrow> py_error option \<times> 't traj_request list \<times> log_event list" where
  "bags_loop bags_root [] = (None, [], [])"
| "bags_loop bags_root ((name, Bag_file) # rest) = bags_loop bags_root rest"
| "bags_loop bags_root ((name, Bag_dir Evo_missing) # rest) = bags_loop bags_root rest"
| "bags_loop bags_root ((name, Bag_dir Evo_file) # rest) =
     (Some (NotADirectoryError (bags_root @ ''/'' @ name @ ''/evo'')), [], [])"
| "bags_loop bags_root ((name, Bag_dir (Evo_dir agents)) # rest) =
     (let out = agents_loop (bags_root @ ''/'' @ name) agents;
          more = bags_loop bags_root rest
      in (fst more, fst out @ fst (snd more), snd out @ snd (snd more)))"

definition main_traj :: "string \<Rightarrow> 't bags_entry
    \<Rightarrow> py_error option \<times> 't traj_request list \<times> log_event list" where
  "main_traj bags_root tree =
     (case tree of
        Root_missing \<Rightarrow> (None, [], [Does_not_exist bags_root])
      | Root_file \<Rightarrow> (Some (NotADirectoryError bags_root), [], [Loading])
      | Root_dir bags \<Rightarrow>
          (let out = bags_loop bags_root bags
           in (fst out, fst (snd out),
               [Loading] @ snd (snd out) @ (if fst out = None then [Done] else []))))"

section \<open>Notions used in the statements\<close>

text \<open>
  \<open>occurs_in k s\<close> says in the words of the specification that \<open>k\<close> is a substring of
  \<open>s\<close>; \<open>str_in_iff\<close> below shows that the test \<open>str_in\<close> decides it.
\<close>

definition occurs_in :: "string \<Rightarrow> string \<Rightarrow> bool" where
  "occurs_in k s = (\<exists>ps ss. s = ps @ k @ ss)"

text \<open>
  The rows one table file adds to the list of its kind and the line it makes the script
  print, and the rows of all files of one kind, in discovery order.
\<close>

definition file_rows :: "'v table_file \<Rightarrow> (string, 'v) metric_row list" where
  "file_rows f =
     (case read_csv f of Inl e \<Rightarrow> [] | Inr df \<Rightarrow> snd (iterrows (columns df) (rows df) []))"

definition file_log :: "'v table_file \<Rightarrow> log_event list" where
  "file_log f =
     (if basename (csv_path f) \<in> set (map fst METRICS_CONFIG) then
        (case read_csv f of
           Inl e \<Rightarrow> [Error_reading (csv_path f) e]
         | Inr df \<Rightarrow>
             (case fst (iterrows (columns df) (rows df) []) of
                None \<Rightarrow> []
              | Some e \<Rightarrow> [Error_reading (csv_path f) e]))
      else [])"

definition kind_rows :: "string \<Rightarrow> 'v table_file list \<Rightarrow> (string, 'v) metric_row list" where
  "kind_rows k files = concat (map file_rows (filter (\<lambda>f. basename (csv_path f) = k) files))"

text \<open>
  A readable, well-formed table: it parses, it has the column \<^verbatim>\<open>rmse\<close>, and every row
  has one cell for each column.
\<close>

definition well_formed :: "'v table_file \<Rightarrow> bool" where
  "well_formed f =
     (case read_csv f of
        Inl e \<Rightarrow> False
      | Inr df \<Rightarrow> ''rmse'' \<in> set (columns df)
          \<and> list_all (\<lambda>row. length (snd row) = length (columns df)) (rows df))"

text \<open>The skipped-file diagnostics among the printed lines.\<close>

fun is_skip :: "log_event \<Rightarrow> bool" where
  "is_skip (Error_reading f e) = True"
| "is_skip (Error_loading f e) = True"
| "is_skip ev = False"

text \<open>
  What one archive offers to the trajectory set: nothing unless its path carries the
  marker, its directory name resolves to a catalog label, it loads, and its \<^verbatim>\<open>info\<close>
  names both entries; then the label, and the reference and the estimated trajectory
  where \<^verbatim>\<open>trajectories\<close> holds them.
\<close>

definition archive_entry :: "'t zip_file \<Rightarrow> (string \<times> 't option \<times> 't option) option" where
  "archive_entry z =
     (if \<not> str_in ''ape_trans'' (zip_path z) then None
      else
        (case match_key NAME_MAPPING_traj (parent_name (zip_path z)) of
           None \<Rightarrow> None
         | Some l \<Rightarrow>
             if l \<notin> set ALGORITHMS then None
             else
               (case load_res_file z of
                  Inl e \<Rightarrow> None
                | Inr res \<Rightarrow>
                    (case info res ''ref_name'' of
                       None \<Rightarrow> None
                     | Some rn \<Rightarrow>
                         (case info res ''est_name'' of
                            None \<Rightarrow> None
                          | Some en \<Rightarrow>
                              Some (l, trajectories res (path_name rn),
                                    trajectories res (path_name en)))))))"

definition reference_of :: "'t zip_file \<Rightarrow> 't option" where
  "reference_of z = (case archive_entry z of None \<Rightarrow> None | Some (l, r, e) \<Rightarrow> r)"

definition estimate_of :: "'t zip_file \<Rightarrow> (string \<times> 't) option" where
  "estimate_of z =
     (case archive_entry z of
        None \<Rightarrow> None
      | Some (l, r, e) \<Rightarrow> (case e of None \<Rightarrow> None | Some t \<Rightarrow> Some (l, t)))"

text \<open>
  The example of the specification: a root with one table \<^verbatim>\<open>benchmark_ape_trans.csv\<close>
  of three rows.
\<close>

definition example_table :: "real table_file" where
  "example_table =
     \<lparr>csv_path = ''bags/benchmark_ape_trans.csv'',
      read_csv = Inr (DataFrame [''rmse'']
        [(''global'', [1.2]), (''global_tm'', [2.0]), (''unknown_algo'', [9.9])])\<rparr>"

definition example_env :: "real bench_env" where
  "example_env = \<lparr>bags_dir = ''bags'', bags_dir_exists = True, glob_csv = [example_table]\<rparr>"

text \<open>A second run's table of the same kind whose parsing fails.\<close>

definition corrupt_table :: "real table_file" where
  "corrupt_table =
     \<lparr>csv_path = ''bags/run2/benchmark_ape_trans.csv'', read_csv = Inl ParserError\<rparr>"

text \<open>
  Example archives of one agent: a readable archive at a path, with the reference and
  the estimated trajectory it holds, and three trajectories to tell apart.
\<close>

type_synonym positions = "(int \<times> int \<times> int) list"

definition evo_archive :: "string \<Rightarrow> positions \<Rightarrow> positions \<Rightarrow> positions zip_file" where
  "evo_archive p ref est =
     \<lparr>zip_path = p,
      load_res_file = Inr \<lparr>info = [''ref_name'' \<mapsto> ''truth/gt.tum'', ''est_name'' \<mapsto> ''est/odom.tum''],
                           trajectories = [''gt.tum'' \<mapsto> ref, ''odom.tum'' \<mapsto> est]\<rparr>\<rparr>"

definition traj_G :: positions where "traj_G = [(0, 0, 0), (1, 1, 0)]"

definition traj_A :: positions where "traj_A = [(0, 0, 0), (1, 0, 0)]"

definition traj_B :: positions where "traj_B = [(0, 0, 0), (0, 1, 0)]"

definition empty_state :: "positions traj_state" where
  "empty_state = \<lparr>est_trajs = Map.empty, gt_traj = None, printed = []\<rparr>"

text \<open>
  For the rows of one kind, the categories \<^verbatim>\<open>present_algos\<close> that \<^verbatim>\<open>generate_plots\<close>
  computes and the frame it hands to seaborn.
\<close>

definition present_of :: "(string, 'v) metric_row list \<Rightarrow> string list" where
  "present_of df = filter (\<lambda>algo. algo \<in> set (unique (map Algorithm df))) ALGORITHMS"

definition ordered_table :: "(string, 'v) metric_row list \<Rightarrow> (string option, 'v) metric_row list" where
  "ordered_table df =
     sort_values (present_of df)
       (map (\<lambda>r. \<lparr>Algorithm = Categorical (present_of df) (Algorithm r), RMSE = RMSE r\<rparr>) df)"


section \<open>What load_data computes\<close>

lemma iterrows_append:
  "iterrows cols rs (acc @ acc') = (fst (iterrows cols rs acc'), acc @ snd (iterrows cols rs acc'))"
  by (induction rs arbitrary: acc') (auto simp: Let_def split: option.splits)

lemma iterrows_acc:
  "iterrows cols rs acc = (fst (iterrows cols rs []), acc @ snd (iterrows cols rs []))"
  using iterrows_append [of cols rs acc "[]"] by simp

lemma store_set_distinct:
  "distinct (map fst al) \<Longrightarrow> map_of al k = Some v \<Longrightarrow>
   store_set k (v @ w) al = map (\<lambda>(k', v'). (k', v' @ (if k' = k then w else []))) al"
  unfolding store_set_def
  by (rule map_cong [OF refl]) (auto dest: map_of_SomeD eq_key_imp_eq_value)

lemma store_set_absent:
  "map_of al k = None \<Longrightarrow> map (\<lambda>(k', v'). (k', v' @ (if k' = k then w else []))) al = al"
  by (induction al) (auto split: if_splits)

lemma load_file_fst:
  assumes "distinct (map fst store)"
  shows "fst (load_file f (store, lg)) =
     map (\<lambda>(k, v). (k, v @ (if k = basename (csv_path f) then file_rows f else []))) store"
proof (cases "map_of store (basename (csv_path f))")
  case None
  then show ?thesis by (simp add: load_file_def store_set_absent)
next
  case (Some recs)
  show ?thesis
  proof (cases "read_csv f")
    case (Inl e)
    have fr: "file_rows f = []"
      using Inl by (simp add: file_rows_def)
    have "map (\<lambda>(k, v). (k, v @ (if k = basename (csv_path f) then file_rows f else []))) store = store"
      unfolding fr by (induction store) auto
    with Some Inl show ?thesis by (simp add: load_file_def)
  next
    case (Inr df)
    obtain e rs where it: "iterrows (columns df) (rows df) [] = (e, rs)" by force
    then have "iterrows (columns df) (rows df) recs = (e, recs @ rs)"
      using iterrows_acc [of "columns df" "rows df" recs] by simp
    moreover have fr: "file_rows f = rs"
      using Inr it by (simp add: file_rows_def)
    ultimately show ?thesis
      using Some Inr unfolding fr [symmetric]
      by (cases e) (simp_all add: load_file_def store_set_distinct [OF assms Some])
  qed
qed

lemma load_file_snd:
  "snd (load_file f (store, lg)) =
     lg @ (if map_of store (basename (csv_path f)) = None then []
            else (case read_csv f of
                   Inl e \<Rightarrow> [Error_reading (csv_path f) e]
                 | Inr df \<Rightarrow>
                     (case fst (iterrows (columns df) (rows df) []) of
                        None \<Rightarrow> []
                      | Some e \<Rightarrow> [Error_reading (csv_path f) e])))"
proof (cases "map_of store (basename (csv_path f))")
  case None
  then show ?thesis by (simp add: load_file_def)
next
  case (Some recs)
  show ?thesis
  proof (cases "read_csv f")
    case (Inl e)
    with Some show ?thesis by (simp add: load_file_def)
  next
    case (Inr df)
    obtain e rs where it: "iterrows (columns df) (rows df) [] = (e, rs)" by force
    then have "iterrows (columns df) (rows df) recs = (e, recs @ rs)"
      using iterrows_acc [of "columns df" "rows df" recs] by simp
    with Some Inr it show ?thesis
      by (cases e) (simp_all add: load_file_def)
  qed
qed

lemma fold_load_file_fst:
  "distinct (map fst store) \<Longrightarrow>
   fst (fold load_file fs (store, lg)) = map (\<lambda>(k, v). (k, v @ kind_rows k fs)) store"
proof (induction fs arbitrary: store lg)
  case Nil
  then show ?case by (simp add: kind_rows_def case_prod_beta)
next
  case (Cons f fs)
  let ?st = "load_file f (store, lg)"
  have fst1: "fst ?st = map (\<lambda>(k, v). (k, v @ (if k = basename (csv_path f) then file_rows f else []))) store"
    by (rule load_file_fst [OF Cons.prems])
  have keys: "map fst (fst ?st) = map fst store"
    unfolding fst1 by (simp add: case_prod_beta comp_def)
  have "fst (fold load_file (f # fs) (store, lg)) = fst (fold load_file fs (fst ?st, snd ?st))"
    by simp
  also have "\<dots> = map (\<lambda>(k, v). (k, v @ kind_rows k fs)) (fst ?st)"
    by (rule Cons.IH) (simp add: keys Cons.prems)
  also have "\<dots> = map (\<lambda>(k, v). (k, v @ kind_rows k (f # fs))) store"
    unfolding fst1 by (auto simp: kind_rows_def)
  finally show ?case .
qed

lemma fold_load_file_keys:
  "distinct (map fst store) \<Longrightarrow> map fst (fst (fold load_file fs (store, lg))) = map fst store"
  by (simp add: fold_load_file_fst case_prod_beta comp_def)

lemma fold_load_file_snd:
  "distinct (map fst store) \<Longrightarrow> map fst store = map fst METRICS_CONFIG \<Longrightarrow>
   snd (fold load_file fs (store, lg)) = lg @ concat (map file_log fs)"
proof (induction fs arbitrary: store lg)
  case Nil
  then show ?case by simp
next
  case (Cons f fs)
  let ?st = "load_file f (store, lg)"
  have keys: "map fst (fst ?st) = map fst store"
    by (simp add: load_file_fst [OF Cons.prems(1)] case_prod_beta comp_def)
  have dom: "(map_of store (basename (csv_path f)) = None) = (basename (csv_path f) \<notin> set (map fst METRICS_CONFIG))"
    using Cons.prems(2) by (metis map_of_eq_None_iff set_map)
  have "snd (fold load_file (f # fs) (store, lg)) = snd (fold load_file fs (fst ?st, snd ?st))"
    by simp
  also have "\<dots> = snd ?st @ concat (map file_log fs)"
    by (rule Cons.IH) (simp_all add: keys Cons.prems METRICS_CONFIG_def)
  also have "snd ?st = lg @ file_log f"
    unfolding load_file_snd dom by (simp add: file_log_def)
  finally show ?case by simp
qed

lemma load_data_fst:
  "fst (load_data fs) =
     filter (\<lambda>(k, v). v \<noteq> []) (map (\<lambda>cfg. (fst cfg, kind_rows (fst cfg) fs)) METRICS_CONFIG)"
proof -
  have d: "distinct (map fst (map (\<lambda>cfg. (fst cfg, [])) METRICS_CONFIG :: (string \<times> (string, 'a) metric_row list) list))"
    by (simp add: METRICS_CONFIG_def)
  show ?thesis
    by (simp add: load_data_def Let_def fold_load_file_fst [OF d] comp_def)
qed

lemma load_data_snd:
  "snd (load_data fs) = Found_metric_files (length fs) # concat (map file_log fs)"
proof -
  have d: "distinct (map fst (map (\<lambda>cfg. (fst cfg, [])) METRICS_CONFIG :: (string \<times> (string, 'a) metric_row list) list))"
    by (simp add: METRICS_CONFIG_def)
  show ?thesis
    by (simp add: load_data_def Let_def fold_load_file_snd [OF d] comp_def)
qed

section \<open>The substring test\<close>

lemma startswith_iff: "startswith s k \<longleftrightarrow> (\<exists>ss. s = k @ ss)"
  by (induction s k rule: startswith.induct) auto

lemma str_in_iff: "str_in k s \<longleftrightarrow> occurs_in k s"
proof (induction s)
  case Nil
  then show ?case by (auto simp: occurs_in_def)
next
  case (Cons c cs)
  have "occurs_in k (c # cs) \<longleftrightarrow> (\<exists>ss. c # cs = k @ ss) \<or> occurs_in k cs"
    unfolding occurs_in_def
  proof
    assume "\<exists>ps ss. c # cs = ps @ k @ ss"
    then obtain ps ss where eq: "c # cs = ps @ k @ ss" by blast
    show "(\<exists>ss. c # cs = k @ ss) \<or> (\<exists>ps ss. cs = ps @ k @ ss)"
    proof (cases ps)
      case Nil
      with eq show ?thesis by auto
    next
      case (Cons p ps')
      with eq have "cs = ps' @ k @ ss" by simp
      then show ?thesis by blast
    qed
  next
    assume "(\<exists>ss. c # cs = k @ ss) \<or> (\<exists>ps ss. cs = ps @ k @ ss)"
    then show "\<exists>ps ss. c # cs = ps @ k @ ss"
    proof
      assume "\<exists>ss. c # cs = k @ ss"
      then obtain ss where "c # cs = [] @ k @ ss" by auto
      then show ?thesis by blast
    next
      assume "\<exists>ps ss. cs = ps @ k @ ss"
      then obtain ps ss where "c # cs = (c # ps) @ k @ ss" by auto
      then show ?thesis by blast
    qed
  qed
  with Cons show ?case by (simp add: startswith_iff)
qed

section \<open>Rows of a table\<close>

lemma map_of_zip_index:
  "x \<in> set cols \<Longrightarrow> length cells = length cols \<Longrightarrow>
   map_of (zip cols cells) x = Some (cells ! index_of cols x)"
proof (induction cols arbitrary: cells)
  case Nil
  then show ?case by simp
next
  case (Cons c cols)
  then obtain d ds where "cells = d # ds" by (cases cells) auto
  with Cons show ?case by auto
qed

lemma bench_label_gate:
  "(case map_of NAME_MAPPING_bench k of Some l \<Rightarrow> l | None \<Rightarrow> k) \<in> set ALGORITHMS
   \<longleftrightarrow> k \<in> set (map fst NAME_MAPPING_bench) \<or> k \<in> set ALGORITHMS"
  by (auto simp: NAME_MAPPING_bench_def ALGORITHMS_def)

lemma iterrows_uniform:
  assumes "''rmse'' \<in> set cols" and "\<forall>row \<in> set rs. length (snd row) = length cols"
  shows "iterrows cols rs acc =
    (None, acc @ map (\<lambda>row. \<lparr>Algorithm = (case map_of NAME_MAPPING_bench (fst row) of
                                             Some l \<Rightarrow> l | None \<Rightarrow> fst row),
                              RMSE = snd row ! index_of cols ''rmse''\<rparr>)
                 (filter (\<lambda>row. fst row \<in> set (map fst NAME_MAPPING_bench)
                                \<or> fst row \<in> set ALGORITHMS) rs))"
  using assms(2)
proof (induction rs arbitrary: acc)
  case Nil
  then show ?case by simp
next
  case (Cons row rs)
  obtain k cells where row: "row = (k, cells)" by (cases row)
  with Cons.prems have len: "length cells = length cols" by simp
  have cell: "map_of (zip cols cells) ''rmse'' = Some (cells ! index_of cols ''rmse'')"
    by (rule map_of_zip_index [OF assms(1) len])
  from Cons.prems have rest: "\<forall>row \<in> set rs. length (snd row) = length cols" by simp
  show ?case
  proof (cases "k \<in> set (map fst NAME_MAPPING_bench) \<or> k \<in> set ALGORITHMS")
    case True
    then have "(case map_of NAME_MAPPING_bench k of Some l \<Rightarrow> l | None \<Rightarrow> k) \<in> set ALGORITHMS"
      by (simp only: bench_label_gate)
    with True show ?thesis
      unfolding row by (simp add: cell Cons.IH [OF rest] Let_def del: set_map split: option.split)
  next
    case False
    then have "(case map_of NAME_MAPPING_bench k of Some l \<Rightarrow> l | None \<Rightarrow> k) \<notin> set ALGORITHMS"
      by (simp only: bench_label_gate not_False_eq_True)
    with False show ?thesis
      unfolding row by (simp add: Cons.IH [OF rest] Let_def del: set_map)
  qed
qed

lemma iterrows_labels:
  "r \<in> set (snd (iterrows cols rs acc)) \<Longrightarrow> r \<in> set acc \<or> Algorithm r \<in> set ALGORITHMS"
proof (induction rs arbitrary: acc)
  case Nil
  then show ?case by simp
next
  case (Cons row rs)
  obtain k cells where row: "row = (k, cells)" by (cases row)
  let ?label = "case map_of NAME_MAPPING_bench k of Some l \<Rightarrow> l | None \<Rightarrow> k"
  show ?case
  proof (cases "?label \<in> set ALGORITHMS")
    case False
    with Cons.prems have "r \<in> set (snd (iterrows cols rs acc))"
      unfolding row by (simp add: Let_def)
    then show ?thesis by (rule Cons.IH)
  next
    case True
    show ?thesis
    proof (cases "map_of (zip cols cells) ''rmse''")
      case None
      with True Cons.prems show ?thesis unfolding row by (simp add: Let_def)
    next
      case (Some v)
      with True Cons.prems
      have "r \<in> set (snd (iterrows cols rs (acc @ [\<lparr>Algorithm = ?label, RMSE = v\<rparr>])))"
        unfolding row by (simp add: Let_def)
      then have "r \<in> set (acc @ [\<lparr>Algorithm = ?label, RMSE = v\<rparr>]) \<or> Algorithm r \<in> set ALGORITHMS"
        by (rule Cons.IH)
      with True show ?thesis by auto
    qed
  qed
qed

lemma file_rows_labels: "r \<in> set (file_rows f) \<Longrightarrow> Algorithm r \<in> set ALGORITHMS"
  using iterrows_labels [of r _ _ "[]"] by (auto simp: file_rows_def split: sum.splits)

lemma kind_rows_labels: "r \<in> set (kind_rows k fs) \<Longrightarrow> Algorithm r \<in> set ALGORITHMS"
  by (auto simp: kind_rows_def dest: file_rows_labels)

lemma load_data_labels:
  "(k, recs) \<in> set (fst (load_data fs)) \<Longrightarrow> r \<in> set recs \<Longrightarrow> Algorithm r \<in> set ALGORITHMS"
  by (auto simp: load_data_fst dest: kind_rows_labels)

lemma well_formed_log: "well_formed f \<Longrightarrow> file_log f = []"
  by (auto simp: well_formed_def file_log_def list_all_iff iterrows_uniform split: sum.splits)

lemma unreadable_rows:
  "read_csv f = Inl e \<Longrightarrow> file_rows f = []"
  by (simp add: file_rows_def)

lemma kind_rows_skip:
  "file_rows bad = [] \<Longrightarrow> kind_rows k (fs1 @ bad # fs2) = kind_rows k (fs1 @ fs2)"
  by (simp add: kind_rows_def)

section \<open>The claims on traj_bench_plot.py\<close>

lemmas bench_eval =
  load_data_def load_file_def store_set_def basename_def METRICS_CONFIG_def
  NAME_MAPPING_bench_def ALGORITHMS_def generate_plots_def plot_metric_def main_bench_def
  unique_def Categorical_def cat_code_def sort_values_def Let_def

text \<open>
  C1, as the specification states it: a row whose key is no key of the alias mapping is
  unrecognized and contributes no record. The row key \<^verbatim>\<open>FGO\<close> is no key of the mapping,
  and its row is appended under the label \<^verbatim>\<open>FGO\<close>.
\<close>

theorem C1_counterexample:
  "map_of NAME_MAPPING_bench ''FGO'' = None \<and>
   fst (load_data [\<lparr>csv_path = ''bags/benchmark_ape_trans.csv'',
                    read_csv = Inr (DataFrame [''rmse''] [(''FGO'', [1::int])])\<rparr>])
     = [(''benchmark_ape_trans.csv'', [\<lparr>Algorithm = ''FGO'', RMSE = 1\<rparr>])]"
  by (simp add: bench_eval)

text \<open>
  C1, amended: \<^verbatim>\<open>NAME_MAPPING.get(algo_key, algo_key)\<close> falls back to the key itself.
  In a table with a column \<^verbatim>\<open>rmse\<close>, a row contributes a record if and only if its key
  is a key of the alias mapping or is itself a catalog label; the record carries the
  mapped label in the first case and the key in the second, and every other row
  contributes nothing.
\<close>

theorem C1_row_recognized_iff_alias_or_label:
  assumes "''rmse'' \<in> set cols" and "\<forall>row \<in> set rs. length (snd row) = length cols"
  shows "iterrows cols rs acc =
    (None, acc @ map (\<lambda>row. \<lparr>Algorithm = (case map_of NAME_MAPPING_bench (fst row) of
                                             Some l \<Rightarrow> l | None \<Rightarrow> fst row),
                              RMSE = snd row ! index_of cols ''rmse''\<rparr>)
                 (filter (\<lambda>row. fst row \<in> set (map fst NAME_MAPPING_bench)
                                \<or> fst row \<in> set ALGORITHMS) rs))"
  using assms by (rule iterrows_uniform)

theorem C1_row_recognized_witness:
  "''rmse'' \<in> set [''mean'', ''rmse''] \<and>
   iterrows [''mean'', ''rmse'']
     [(''global_ukf'', [1, 2]), (''DVL'', [3, 4]), (''unknown_algo'', [5, 6::int])] [] =
     (None, [\<lparr>Algorithm = ''UKF'', RMSE = 2\<rparr>, \<lparr>Algorithm = ''DVL'', RMSE = 4\<rparr>])"
proof -
  have h1: "''rmse'' \<in> set [''mean'', ''rmse'']" by simp
  have h2: "\<forall>row \<in> set [(''global_ukf'', [1, 2]), (''DVL'', [3, 4]), (''unknown_algo'', [5, 6::int])].
      length (snd row) = length [''mean'', ''rmse'']" by simp
  show ?thesis
    using C1_row_recognized_iff_alias_or_label [OF h1 h2, of "[]"]
    by (simp add: NAME_MAPPING_bench_def ALGORITHMS_def)
qed

text \<open>
  C6: a table file of a recognized kind whose reading fails, anywhere in the discovery
  order among readable, well-formed files, leaves the aggregated tables as the other
  files alone give them, and its line is the only skipped-file diagnostic.
\<close>

theorem C6_corrupt_file_isolated:
  assumes "basename (csv_path bad) \<in> set (map fst METRICS_CONFIG)"
    and "read_csv bad = Inl e"
    and "\<forall>f \<in> set (fs1 @ fs2). well_formed f"
  shows "fst (load_data (fs1 @ bad # fs2)) = fst (load_data (fs1 @ fs2)) \<and>
         filter is_skip (snd (load_data (fs1 @ bad # fs2))) = [Error_reading (csv_path bad) e] \<and>
         filter is_skip (snd (load_data (fs1 @ fs2))) = []"
proof -
  have rows: "file_rows bad = []"
    using assms(2) by (rule unreadable_rows)
  have quiet: "concat (map file_log fs) = []" if "\<forall>f \<in> set fs. well_formed f" for fs :: "'a table_file list"
    using that by (induction fs) (simp_all add: well_formed_log)
  have q1: "concat (map file_log fs1) = []"
    by (rule quiet) (use assms(3) in simp)
  have q2: "concat (map file_log fs2) = []"
    by (rule quiet) (use assms(3) in simp)
  have bad: "file_log bad = [Error_reading (csv_path bad) e]"
    using assms(1,2) by (simp add: file_log_def)
  show ?thesis
    by (simp add: load_data_fst load_data_snd kind_rows_skip [OF rows] q1 q2 bad)
qed

theorem C6_corrupt_file_witness:
  "basename (csv_path corrupt_table) \<in> set (map fst METRICS_CONFIG) \<and>
   read_csv corrupt_table = Inl ParserError \<and>
   well_formed example_table \<and>
   fst (load_data ([example_table] @ corrupt_table # [example_table]))
     = fst (load_data ([example_table] @ [example_table])) \<and>
   filter is_skip (snd (load_data ([example_table] @ corrupt_table # [example_table])))
     = [Error_reading ''bags/run2/benchmark_ape_trans.csv'' ParserError]"
proof -
  have h1: "basename (csv_path corrupt_table) \<in> set (map fst METRICS_CONFIG)"
    by (simp add: corrupt_table_def basename_def METRICS_CONFIG_def)
  have h2: "read_csv corrupt_table = Inl ParserError"
    by (simp add: corrupt_table_def)
  have h3: "\<forall>f \<in> set ([example_table] @ [example_table]). well_formed f"
    by (simp add: example_table_def well_formed_def)
  have "csv_path corrupt_table = ''bags/run2/benchmark_ape_trans.csv''"
    by (simp add: corrupt_table_def)
  with C6_corrupt_file_isolated [OF h1 h2 h3] h1 h2 h3 show ?thesis
    by simp
qed

text \<open>
  C7: the example of the specification. The aggregated table of
  \<^verbatim>\<open>benchmark_ape_trans.csv\<close> is FGO 1.2, TM 2.0 in that order; both plots of the kind
  receive these rows with the categories FGO, TM, and the missing labels reported are
  EKF, UKF, IEKF, DVL.
\<close>

theorem C7_example_scenario:
  "fst (load_data (glob_csv example_env)) =
     [(''benchmark_ape_trans.csv'',
       [\<lparr>Algorithm = ''FGO'', RMSE = 1.2\<rparr>, \<lparr>Algorithm = ''TM'', RMSE = 2.0\<rparr>])] \<and>
   main_bench example_env =
     ([\<lparr>plot_type = ''violin'', x_categories = [''FGO'', ''TM''],
        data = [\<lparr>Algorithm = Some ''FGO'', RMSE = 1.2\<rparr>, \<lparr>Algorithm = Some ''TM'', RMSE = 2.0\<rparr>],
        ylabel = ''APE Translation RMSE (m)'', save_path = ''bags/violin_ape_trans.png''\<rparr>,
       \<lparr>plot_type = ''box'', x_categories = [''FGO'', ''TM''],
        data = [\<lparr>Algorithm = Some ''FGO'', RMSE = 1.2\<rparr>, \<lparr>Algorithm = Some ''TM'', RMSE = 2.0\<rparr>],
        ylabel = ''APE Translation RMSE (m)'', save_path = ''bags/box_ape_trans.png''\<rparr>],
      [Loading, Found_metric_files 1, Generating,
       Missing_from ''benchmark_ape_trans.csv'' [''EKF'', ''UKF'', ''IEKF'', ''DVL''],
       Saved ''bags/violin_ape_trans.png'', Saved ''bags/box_ape_trans.png'',
       No_data_for ''benchmark_ape_rot.csv'', No_data_for ''benchmark_rpe_trans.csv'',
       No_data_for ''benchmark_rpe_rot.csv'', Done])"
  by (simp add: example_env_def example_table_def bench_eval)

section \<open>What load_trajectories computes\<close>

lemma load_zip_est:
  "est_trajs (load_zip NAME_MAPPING_traj ALGORITHMS z st) =
     (case estimate_of z of None \<Rightarrow> est_trajs st | Some (l, t) \<Rightarrow> (est_trajs st)(l \<mapsto> t))"
  by (simp add: load_zip_def estimate_of_def archive_entry_def Let_def
      split: option.splits sum.splits)

lemma load_zip_gt:
  "gt_traj (load_zip NAME_MAPPING_traj ALGORITHMS z st) =
     (case gt_traj st of Some g \<Rightarrow> Some g | None \<Rightarrow> reference_of z)"
  by (simp add: load_zip_def reference_of_def archive_entry_def Let_def
      split: option.splits sum.splits)

lemma fold_gt_set:
  "gt_traj st = Some g \<Longrightarrow> gt_traj (fold (load_zip NAME_MAPPING_traj ALGORITHMS) zs st) = Some g"
  by (induction zs arbitrary: st) (simp_all add: load_zip_gt)

lemma fold_gt_unset:
  "gt_traj st = None \<Longrightarrow> \<forall>c \<in> set zs. reference_of c = None \<Longrightarrow>
   gt_traj (fold (load_zip NAME_MAPPING_traj ALGORITHMS) zs st) = None"
  by (induction zs arbitrary: st) (simp_all add: load_zip_gt)

lemma fold_est_other:
  "\<forall>c \<in> set zs. map_option fst (estimate_of c) \<noteq> Some L \<Longrightarrow>
   est_trajs (fold (load_zip NAME_MAPPING_traj ALGORITHMS) zs st) L = est_trajs st L"
  by (induction zs arbitrary: st) (auto simp: load_zip_est split: option.splits)

lemma load_zip_catalog:
  "est_trajs (load_zip m c z st) l = Some t \<Longrightarrow> est_trajs st l = Some t \<or> l \<in> set c"
  by (auto simp: load_zip_def Let_def split: option.splits sum.splits if_splits)

lemma fold_load_zip_catalog:
  "est_trajs (fold (load_zip m c) zs st) l = Some t \<Longrightarrow> est_trajs st l = Some t \<or> l \<in> set c"
  by (induction zs arbitrary: st) (auto dest: load_zip_catalog)

lemma iekf_has_ekf: "str_in ''iekf'' p \<Longrightarrow> str_in ''ekf'' p"
proof -
  assume "str_in ''iekf'' p"
  then obtain ps ss where "p = ps @ ''iekf'' @ ss"
    by (auto simp: str_in_iff occurs_in_def)
  then have "p = (ps @ ''i'') @ ''ekf'' @ ss" by simp
  then show ?thesis unfolding str_in_iff occurs_in_def by blast
qed

lemma match_key_never_iekf: "match_key NAME_MAPPING_traj p \<noteq> Some ''IEKF''"
  by (auto simp: NAME_MAPPING_traj_def dest: iekf_has_ekf)

lemma estimate_of_label:
  "estimate_of z = Some (l, t) \<Longrightarrow> match_key NAME_MAPPING_traj (parent_name (zip_path z)) = Some l"
  by (auto simp: estimate_of_def archive_entry_def split: option.splits sum.splits if_splits)

lemma match_key_first:
  "m = pre @ (k, l) # post \<Longrightarrow> str_in k p \<Longrightarrow> \<forall>e \<in> set pre. \<not> str_in (fst e) p \<Longrightarrow>
   match_key m p = Some l"
  by (induction pre arbitrary: m) auto

lemma match_key_none: "match_key m p = None \<longleftrightarrow> (\<forall>e \<in> set m. \<not> str_in (fst e) p)"
  by (induction m) (auto split: if_splits)

section \<open>The claims on traj_plot.py\<close>

lemmas traj_eval =
  load_trajectories_def load_zip_def estimate_of_def reference_of_def archive_entry_def
  evo_archive_def parent_name_def path_name_def path_parts_def NAME_MAPPING_traj_def
  ALGORITHMS_def Let_def

text \<open>
  C2, as stated: every directory name that contains \<^verbatim>\<open>iekf\<close> resolves to EKF. The name
  \<^verbatim>\<open>fgo_iekf\<close> contains it and resolves to FGO, the label of the earlier key
  \<^verbatim>\<open>fgo\<close>; its archive is stored under FGO and nothing under EKF.
\<close>

theorem C2_counterexample:
  "str_in ''iekf'' ''fgo_iekf'' \<and>
   match_key NAME_MAPPING_traj ''fgo_iekf'' = Some ''FGO'' \<and>
   est_trajs (load_trajectories
     [evo_archive ''bags/run1/evo/auv0/fgo_iekf/ape_trans.zip'' traj_G traj_A]) ''FGO'' = Some traj_A \<and>
   est_trajs (load_trajectories
     [evo_archive ''bags/run1/evo/auv0/fgo_iekf/ape_trans.zip'' traj_G traj_A]) ''EKF'' = None"
  by (simp add: traj_eval)

text \<open>
  C2, amended: a directory name that contains \<^verbatim>\<open>iekf\<close> resolves to the label of the
  first of the keys \<^verbatim>\<open>fgo\<close>, \<^verbatim>\<open>tm\<close>, \<^verbatim>\<open>ekf\<close> that occurs in it, hence to EKF when
  neither \<^verbatim>\<open>fgo\<close> nor \<^verbatim>\<open>tm\<close> occurs; no directory name resolves to IEKF, and no
  estimated trajectory is ever stored under IEKF.
\<close>

theorem C2_iekf_shadowed_by_earlier_keys:
  "(occurs_in ''iekf'' parent \<longrightarrow>
      match_key NAME_MAPPING_traj parent =
        Some (if occurs_in ''fgo'' parent then ''FGO''
              else if occurs_in ''tm'' parent then ''TM'' else ''EKF'')) \<and>
   match_key NAME_MAPPING_traj parent \<noteq> Some ''IEKF'' \<and>
   est_trajs (load_trajectories zips) ''IEKF'' = None"
proof -
  have first: "occurs_in ''iekf'' parent \<longrightarrow>
      match_key NAME_MAPPING_traj parent =
        Some (if occurs_in ''fgo'' parent then ''FGO''
              else if occurs_in ''tm'' parent then ''TM'' else ''EKF'')"
    unfolding str_in_iff [symmetric]
    by (auto simp: NAME_MAPPING_traj_def dest: iekf_has_ekf)
  have "\<forall>c \<in> set zips. map_option fst (estimate_of c) \<noteq> Some ''IEKF''"
    using match_key_never_iekf by (auto dest: estimate_of_label)
  then have "est_trajs (load_trajectories zips) ''IEKF'' = None"
    unfolding load_trajectories_def by (simp add: fold_est_other)
  with first match_key_never_iekf show ?thesis by blast
qed

theorem C2_iekf_shadowed_witness:
  "str_in ''iekf'' ''global_iekf'' \<and>
   match_key NAME_MAPPING_traj ''global_iekf'' = Some ''EKF'' \<and>
   est_trajs (load_trajectories
     [evo_archive ''bags/run1/evo/auv0/global_iekf/ape_trans.zip'' traj_G traj_A]) ''IEKF'' = None \<and>
   est_trajs (load_trajectories
     [evo_archive ''bags/run1/evo/auv0/global_iekf/ape_trans.zip'' traj_G traj_A]) ''EKF'' = Some traj_A"
proof -
  have h: "occurs_in ''iekf'' ''global_iekf''"
    unfolding str_in_iff [symmetric] by simp
  have n1: "\<not> occurs_in ''fgo'' ''global_iekf''" and n2: "\<not> occurs_in ''tm'' ''global_iekf''"
    unfolding str_in_iff [symmetric] by simp_all
  have "est_trajs (load_trajectories
     [evo_archive ''bags/run1/evo/auv0/global_iekf/ape_trans.zip'' traj_G traj_A]) ''EKF'' = Some traj_A"
    by (simp add: traj_eval)
  with C2_iekf_shadowed_by_earlier_keys
    [of "''global_iekf''" "[evo_archive ''bags/run1/evo/auv0/global_iekf/ape_trans.zip'' traj_G traj_A]"]
    h n1 n2
  show ?thesis by (simp add: str_in_iff)
qed

text \<open>
  C4: when two archives of an agent offer estimated trajectories for the same label and
  no archive discovered after the second offers one for it, the set holds the
  trajectory of the second, not that of the first.
\<close>

theorem C4_last_write_wins:
  assumes "zips = pre @ a # mid @ b # post"
    and "estimate_of a = Some (L, A)"
    and "estimate_of b = Some (L, B)"
    and "A \<noteq> B"
    and "\<forall>c \<in> set post. map_option fst (estimate_of c) \<noteq> Some L"
  shows "est_trajs (load_trajectories zips) L = Some B \<and>
         est_trajs (load_trajectories zips) L \<noteq> Some A"
proof -
  have "est_trajs (load_trajectories zips) L = Some B"
    unfolding load_trajectories_def assms(1)
    by (simp add: fold_est_other [OF assms(5)] load_zip_est assms(3))
  with assms(4) show ?thesis by simp
qed

theorem C4_last_write_wins_witness:
  "estimate_of (evo_archive ''bags/run1/evo/auv0/fgo_a/ape_trans.zip'' traj_G traj_A)
     = Some (''FGO'', traj_A) \<and>
   estimate_of (evo_archive ''bags/run1/evo/auv0/fgo_b/ape_trans.zip'' traj_G traj_B)
     = Some (''FGO'', traj_B) \<and>
   traj_A \<noteq> traj_B \<and>
   est_trajs (load_trajectories
     [evo_archive ''bags/run1/evo/auv0/fgo_a/ape_trans.zip'' traj_G traj_A,
      evo_archive ''bags/run1/evo/auv0/fgo_b/ape_trans.zip'' traj_G traj_B]) ''FGO'' = Some traj_B"
proof -
  let ?a = "evo_archive ''bags/run1/evo/auv0/fgo_a/ape_trans.zip'' traj_G traj_A"
  let ?b = "evo_archive ''bags/run1/evo/auv0/fgo_b/ape_trans.zip'' traj_G traj_B"
  have z: "[?a, ?b] = [] @ ?a # [] @ ?b # []" by simp
  have ha: "estimate_of ?a = Some (''FGO'', traj_A)"
    by (simp add: estimate_of_def archive_entry_def evo_archive_def parent_name_def
        path_name_def path_parts_def NAME_MAPPING_traj_def ALGORITHMS_def)
  have hb: "estimate_of ?b = Some (''FGO'', traj_B)"
    by (simp add: estimate_of_def archive_entry_def evo_archive_def parent_name_def
        path_name_def path_parts_def NAME_MAPPING_traj_def ALGORITHMS_def)
  have ne: "traj_A \<noteq> traj_B" by (simp add: traj_A_def traj_B_def)
  have post: "\<forall>c \<in> set []. map_option fst (estimate_of c) \<noteq> Some ''FGO''" by simp
  from C4_last_write_wins [OF z ha hb ne post] ha hb ne show ?thesis by simp
qed

text \<open>
  C5: the ground truth of an agent is the reference trajectory of the first archive, in
  discovery order, that offers one; the archives after it leave it as it is.
\<close>

theorem C5_first_reference_is_ground_truth:
  assumes "zips = pre @ b # post"
    and "\<forall>c \<in> set pre. reference_of c = None"
    and "reference_of b = Some G"
  shows "gt_traj (load_trajectories zips) = Some G \<and>
         gt_traj (load_trajectories (pre @ [b])) = Some G"
proof -
  let ?s0 = "\<lparr>est_trajs = Map.empty, gt_traj = None,
              printed = [Found_trajectory_files (length zips)]\<rparr> :: 'a traj_state"
  have "gt_traj (fold (load_zip NAME_MAPPING_traj ALGORITHMS) pre s) = None"
    if "gt_traj s = None" for s :: "'a traj_state"
    using that assms(2) by (rule fold_gt_unset)
  then have at_b: "gt_traj (load_zip NAME_MAPPING_traj ALGORITHMS b
      (fold (load_zip NAME_MAPPING_traj ALGORITHMS) pre s)) = Some G"
    if "gt_traj s = None" for s :: "'a traj_state"
    using that by (simp add: load_zip_gt assms(3))
  show ?thesis
    unfolding load_trajectories_def assms(1)
    by (simp add: fold_gt_set at_b)
qed

theorem C5_first_reference_witness:
  "reference_of \<lparr>zip_path = ''bags/run1/evo/auv0/ekf/ape_trans.zip'',
                 load_res_file = (Inl BadZipFile :: py_error + positions evo_result)\<rparr> = None \<and>
   reference_of (evo_archive ''bags/run1/evo/auv0/ukf/ape_trans.zip'' traj_G traj_A) = Some traj_G \<and>
   gt_traj (load_trajectories
     [\<lparr>zip_path = ''bags/run1/evo/auv0/ekf/ape_trans.zip'', load_res_file = Inl BadZipFile\<rparr>,
      evo_archive ''bags/run1/evo/auv0/ukf/ape_trans.zip'' traj_G traj_A,
      evo_archive ''bags/run1/evo/auv0/dvl/ape_trans.zip'' traj_B traj_A]) = Some traj_G"
proof -
  let ?e = "\<lparr>zip_path = ''bags/run1/evo/auv0/ekf/ape_trans.zip'',
             load_res_file = (Inl BadZipFile :: py_error + positions evo_result)\<rparr>"
  let ?u = "evo_archive ''bags/run1/evo/auv0/ukf/ape_trans.zip'' traj_G traj_A"
  let ?d = "evo_archive ''bags/run1/evo/auv0/dvl/ape_trans.zip'' traj_B traj_A"
  have z: "[?e, ?u, ?d] = [?e] @ ?u # [?d]" by simp
  have he: "reference_of ?e = None"
    by (simp add: reference_of_def archive_entry_def parent_name_def
        path_name_def path_parts_def NAME_MAPPING_traj_def ALGORITHMS_def)
  then have pre: "\<forall>c \<in> set [?e]. reference_of c = None" by simp
  have hu: "reference_of ?u = Some traj_G"
    by (simp add: reference_of_def archive_entry_def evo_archive_def parent_name_def
        path_name_def path_parts_def NAME_MAPPING_traj_def ALGORITHMS_def)
  from C5_first_reference_is_ground_truth [OF z pre hu] he hu show ?thesis by simp
qed

text \<open>
  C9: for any alias mapping and catalog, the directory name of an archive resolves to the
  label of the first key, in the order of the mapping, that is a substring of it, and
  the archive is stored under that label when the label is in the catalog; when no key is
  a substring, or when the label is outside the catalog, the archive is skipped and the
  state stays as it was.
\<close>

theorem C9_first_matching_key_wins:
  "((\<forall>e \<in> set m. \<not> occurs_in (fst e) (parent_name (zip_path z))) \<longrightarrow>
      match_key m (parent_name (zip_path z)) = None \<and> load_zip m c z st = st) \<and>
   (m = pre @ (k, l) # post \<and> occurs_in k (parent_name (zip_path z)) \<and>
    (\<forall>e \<in> set pre. \<not> occurs_in (fst e) (parent_name (zip_path z))) \<longrightarrow>
      match_key m (parent_name (zip_path z)) = Some l \<and>
      (l \<notin> set c \<longrightarrow> load_zip m c z st = st) \<and>
      (l \<in> set c \<and> str_in ''ape_trans'' (zip_path z) \<and> load_res_file z = Inr res \<and>
       info res ''ref_name'' = Some rn \<and> info res ''est_name'' = Some en \<and>
       trajectories res (path_name en) = Some t \<longrightarrow>
         est_trajs (load_zip m c z st) = (est_trajs st)(l \<mapsto> t)))"
proof (intro conjI impI)
  assume "\<forall>e \<in> set m. \<not> occurs_in (fst e) (parent_name (zip_path z))"
  then have none: "match_key m (parent_name (zip_path z)) = None"
    by (simp add: match_key_none str_in_iff)
  then show "match_key m (parent_name (zip_path z)) = None" .
  from none show "load_zip m c z st = st" by (simp add: load_zip_def)
next
  assume a: "m = pre @ (k, l) # post \<and> occurs_in k (parent_name (zip_path z)) \<and>
    (\<forall>e \<in> set pre. \<not> occurs_in (fst e) (parent_name (zip_path z)))"
  then have some: "match_key m (parent_name (zip_path z)) = Some l"
    by (intro match_key_first [of m pre k l post]) (simp_all add: str_in_iff)
  then show "match_key m (parent_name (zip_path z)) = Some l" .
  {
    assume "l \<notin> set c"
    with some show "load_zip m c z st = st" by (simp add: load_zip_def)
  }
  {
    assume "l \<in> set c \<and> str_in ''ape_trans'' (zip_path z) \<and> load_res_file z = Inr res \<and>
       info res ''ref_name'' = Some rn \<and> info res ''est_name'' = Some en \<and>
       trajectories res (path_name en) = Some t"
    with some show "est_trajs (load_zip m c z st) = (est_trajs st)(l \<mapsto> t)"
      by (simp add: load_zip_def Let_def split: option.splits)
  }
qed

theorem C9_first_matching_key_witness:
  "match_key NAME_MAPPING_traj ''run3_ukf'' = Some ''UKF'' \<and>
   est_trajs (load_zip NAME_MAPPING_traj ALGORITHMS
     (evo_archive ''bags/run1/evo/auv0/run3_ukf/ape_trans.zip'' traj_G traj_A) empty_state)
     = [''UKF'' \<mapsto> traj_A] \<and>
   load_zip [(''ukf'', ''UKF-2'')] ALGORITHMS
     (evo_archive ''bags/run1/evo/auv0/run3_ukf/ape_trans.zip'' traj_G traj_A) empty_state
     = empty_state \<and>
   load_zip NAME_MAPPING_traj ALGORITHMS
     (evo_archive ''bags/run1/evo/auv0/particle/ape_trans.zip'' traj_G traj_A) empty_state
     = empty_state"
proof -
  let ?z = "evo_archive ''bags/run1/evo/auv0/run3_ukf/ape_trans.zip'' traj_G traj_A"
  let ?y = "evo_archive ''bags/run1/evo/auv0/particle/ape_trans.zip'' traj_G traj_A"
  let ?res = "\<lparr>info = [''ref_name'' \<mapsto> ''truth/gt.tum'', ''est_name'' \<mapsto> ''est/odom.tum''],
               trajectories = [''gt.tum'' \<mapsto> traj_G, ''odom.tum'' \<mapsto> traj_A]\<rparr>"
  have pz: "parent_name (zip_path ?z) = ''run3_ukf''"
    by (simp add: evo_archive_def parent_name_def path_parts_def)
  have py: "parent_name (zip_path ?y) = ''particle''"
    by (simp add: evo_archive_def parent_name_def path_parts_def)
  have split: "NAME_MAPPING_traj =
      [(''fgo'', ''FGO''), (''tm'', ''TM''), (''ekf'', ''EKF'')] @ (''ukf'', ''UKF'')
        # [(''iekf'', ''IEKF''), (''dvl'', ''DVL'')]"
    by (simp add: NAME_MAPPING_traj_def)
  have occ: "occurs_in ''ukf'' ''run3_ukf''"
    unfolding str_in_iff [symmetric] by simp
  have before: "\<forall>e \<in> set [(''fgo'', ''FGO''), (''tm'', ''TM''), (''ekf'', ''EKF'')].
      \<not> occurs_in (fst e) ''run3_ukf''"
    unfolding str_in_iff [symmetric] by simp
  have stored: "l \<in> set ALGORITHMS \<and> str_in ''ape_trans'' (zip_path ?z) \<and>
      load_res_file ?z = Inr ?res \<and> info ?res ''ref_name'' = Some ''truth/gt.tum'' \<and>
      info ?res ''est_name'' = Some ''est/odom.tum'' \<and>
      trajectories ?res (path_name ''est/odom.tum'') = Some traj_A" if "l = ''UKF''" for l
    using that by (simp add: evo_archive_def ALGORITHMS_def path_name_def path_parts_def)
  have w1: "match_key NAME_MAPPING_traj ''run3_ukf'' = Some ''UKF'' \<and>
      est_trajs (load_zip NAME_MAPPING_traj ALGORITHMS ?z empty_state) = [''UKF'' \<mapsto> traj_A]"
    using C9_first_matching_key_wins
      [of NAME_MAPPING_traj ?z ALGORITHMS empty_state
          "[(''fgo'', ''FGO''), (''tm'', ''TM''), (''ekf'', ''EKF'')]" "''ukf''" "''UKF''"
          "[(''iekf'', ''IEKF''), (''dvl'', ''DVL'')]" ?res "''truth/gt.tum''" "''est/odom.tum''" traj_A]
      split occ before stored [OF refl]
    unfolding pz by (simp add: empty_state_def)
  have w2: "load_zip [(''ukf'', ''UKF-2'')] ALGORITHMS ?z empty_state = empty_state"
    using C9_first_matching_key_wins
      [of "[(''ukf'', ''UKF-2'')]" ?z ALGORITHMS empty_state "[]" "''ukf''" "''UKF-2''" "[]"]
      occ
    unfolding pz by (simp add: ALGORITHMS_def)
  have none: "\<forall>e \<in> set NAME_MAPPING_traj. \<not> occurs_in (fst e) ''particle''"
    unfolding str_in_iff [symmetric] by (simp add: NAME_MAPPING_traj_def)
  have w3: "load_zip NAME_MAPPING_traj ALGORITHMS ?y empty_state = empty_state"
    using C9_first_matching_key_wins [of NAME_MAPPING_traj ?y ALGORITHMS empty_state] none
    unfolding py by simp
  from w1 w2 w3 show ?thesis by simp
qed

text \<open>
  C10, at a root that exists: a bag directory whose \<^verbatim>\<open>evo\<close> entry is a regular file.
  \<^verbatim>\<open>evo_dir.exists()\<close> holds, \<^verbatim>\<open>evo_dir.iterdir()\<close> raises, and nothing catches it:
  the script ends with the exception, so a missing root is not the only hard failure.
\<close>

theorem C10_evo_regular_file_raises:
  "main_traj ''bags'' (Root_dir [(''run1'', Bag_dir Evo_file)] :: positions bags_entry) =
     (Some (NotADirectoryError ''bags/run1/evo''), [], [Loading])"
  by (simp add: main_traj_def)

text \<open>
  Around that input: with the root missing both scripts print the error and return with
  nothing read and nothing saved; a root that is a regular file raises as well; and in a
  tree where no \<^verbatim>\<open>evo\<close> entry is a regular file the walk raises nothing, whatever
  the archives hold.
\<close>

lemma missing_root_aborts:
  "\<not> bags_dir_exists env \<Longrightarrow> main_bench env = ([], [Does_not_exist (bags_dir env)])"
  "main_traj bags_root Root_missing = (None, [], [Does_not_exist bags_root])"
  by (simp_all add: main_bench_def main_traj_def)

lemma regular_file_root_raises:
  "main_traj bags_root Root_file = (Some (NotADirectoryError bags_root), [], [Loading])"
  by (simp add: main_traj_def)

lemma bags_loop_directories:
  "\<forall>entry \<in> set bags. snd entry \<noteq> Bag_dir Evo_file \<Longrightarrow> fst (bags_loop bags_root bags) = None"
  by (induction bags_root bags rule: bags_loop.induct) (simp_all add: Let_def)

section \<open>Sorting by category\<close>

lemma index_of_less: "x \<in> set xs \<Longrightarrow> index_of xs x < length xs"
  by (induction xs) auto











section \<open>What generate_plots hands to the plots\<close>

lemma set_unique: "set (unique xs) = set xs"
  by (simp add: unique_def)




lemma label_present:
  "r \<in> set df \<Longrightarrow> Algorithm r \<in> set ALGORITHMS \<Longrightarrow> Algorithm r \<in> set (present_of df)"
  by (simp add: present_of_def set_unique)





lemma ordered_table_set:
  assumes "\<forall>r \<in> set df. Algorithm r \<in> set ALGORITHMS" and "r' \<in> set (ordered_table df)"
  shows "\<exists>r \<in> set df. r' = \<lparr>Algorithm = Some (Algorithm r), RMSE = RMSE r\<rparr>"
proof -
  from assms(2) obtain r where r: "r \<in> set df"
    and r': "r' = \<lparr>Algorithm = Categorical (present_of df) (Algorithm r), RMSE = RMSE r\<rparr>"
    by (auto simp: ordered_table_def sort_values_def)
  from r assms(1) have "Categorical (present_of df) (Algorithm r) = Some (Algorithm r)"
    by (simp add: Categorical_def label_present)
  with r r' show ?thesis by auto
qed

lemma plot_metric_eq:
  "plot_metric dm dir cfg =
     (case map_of dm (fst cfg) of
        None \<Rightarrow> ([], [No_data_for (fst cfg)])
      | Some df \<Rightarrow>
          (let missing = filter (\<lambda>algo. algo \<notin> set (unique (map Algorithm df))) ALGORITHMS;
               lg = (if missing \<noteq> [] then [Missing_from (fst cfg) missing] else [])
           in if present_of df = [] then ([], lg @ [No_valid_algorithms (fst cfg)])
              else
                (let reqs = map (\<lambda>pt. \<lparr>plot_type = pt, x_categories = present_of df,
                                        data = ordered_table df, ylabel = fst (snd cfg),
                                        save_path = dir @ ''/'' @ pt @ ''_'' @ snd (snd cfg) @ ''.png''\<rparr>)
                              [''violin'', ''box'']
                 in (reqs, lg @ map (\<lambda>r. Saved (save_path r)) reqs))))"
  by (simp add: plot_metric_def present_of_def ordered_table_def Let_def split: option.splits)

lemma plot_metric_req:
  "req \<in> set (fst (plot_metric dm dir cfg)) \<Longrightarrow>
   \<exists>df. map_of dm (fst cfg) = Some df \<and> data req = ordered_table df \<and> x_categories req = present_of df"
  by (auto simp: plot_metric_eq Let_def split: option.splits if_splits)


lemma map_of_load_data_Some:
  "map_of (fst (load_data fs)) k = Some df \<Longrightarrow> df = kind_rows k fs"
  by (auto simp: load_data_fst dest!: map_of_SomeD)


section \<open>The claims on ordering and labels\<close>




text \<open>
  C8: every row of an aggregated table and every row handed to a plot carries a label of
  the catalog, and every estimated trajectory of a trajectory set, and of what is handed
  to the trajectory plot, is stored under a label of the catalog.
\<close>

theorem C8_only_catalog_labels:
  "(\<forall>kv \<in> set (fst (load_data files)). \<forall>r \<in> set (snd kv). Algorithm r \<in> set ALGORITHMS) \<and>
   (\<forall>req \<in> set (fst (main_bench env)). \<forall>r \<in> set (data req).
      \<exists>l \<in> set ALGORITHMS. Algorithm r = Some l) \<and>
   dom (est_trajs (load_trajectories zips)) \<subseteq> set ALGORITHMS \<and>
   (\<forall>req \<in> set (fst (plot_auv zips output_dir auv_name)). \<forall>e \<in> set (estimated req).
      fst e \<in> set ALGORITHMS \<and> est_trajs (load_trajectories zips) (fst e) = Some (snd e))"
proof -
  have tables: "Algorithm r \<in> set ALGORITHMS"
    if "kv \<in> set (fst (load_data files))" and "r \<in> set (snd kv)" for kv r
    using that load_data_labels [of "fst kv" "snd kv" files r] by simp
  have plots: "\<exists>l \<in> set ALGORITHMS. Algorithm r = Some l"
    if req: "req \<in> set (fst (main_bench env))" and r: "r \<in> set (data req)" for req r
  proof -
    let ?dm = "fst (load_data (glob_csv env))"
    from req have "req \<in> set (fst (generate_plots ?dm (bags_dir env)))"
      by (simp add: main_bench_def Let_def split: if_splits)
    then obtain cfg where "req \<in> set (fst (plot_metric ?dm (bags_dir env) cfg))"
      by (auto simp: generate_plots_def Let_def split: if_splits)
    from plot_metric_req [OF this] obtain d
      where d: "map_of ?dm (fst cfg) = Some d" and dat: "data req = ordered_table d"
      by blast
    from d have "d = kind_rows (fst cfg) (glob_csv env)" by (rule map_of_load_data_Some)
    then have ld: "\<forall>r \<in> set d. Algorithm r \<in> set ALGORITHMS"
      by (auto dest: kind_rows_labels)
    from r dat ordered_table_set [OF ld, of r] obtain r0
      where "r0 \<in> set d" "r = \<lparr>Algorithm = Some (Algorithm r0), RMSE = RMSE r0\<rparr>"
      by auto
    with ld show ?thesis by auto
  qed
  have trajs: "dom (est_trajs (load_trajectories zips)) \<subseteq> set ALGORITHMS"
    unfolding load_trajectories_def
    by (auto dest: fold_load_zip_catalog)
  have curves: "fst e \<in> set ALGORITHMS \<and> est_trajs (load_trajectories zips) (fst e) = Some (snd e)"
    if "req \<in> set (fst (plot_auv zips output_dir auv_name))" and "e \<in> set (estimated req)"
    for req e
  proof -
    from that
    have "e \<in> set (concat (map (\<lambda>algo. case est_trajs (load_trajectories zips) algo of
                                        None \<Rightarrow> [] | Some t \<Rightarrow> [(algo, t)]) ALGORITHMS))"
      by (auto simp: plot_auv_def Let_def split: option.splits)
    then show ?thesis by (auto split: option.splits)
  qed
  from tables plots trajs curves show ?thesis by blast
qed

theorem C8_only_catalog_labels_witness:
  "fst (load_data (glob_csv example_env)) =
     [(''benchmark_ape_trans.csv'',
       [\<lparr>Algorithm = ''FGO'', RMSE = 1.2\<rparr>, \<lparr>Algorithm = ''TM'', RMSE = 2.0\<rparr>])] \<and>
   ''TM'' \<in> set ALGORITHMS \<and>
   est_trajs (load_trajectories
     [evo_archive ''bags/run1/evo/auv0/run3_ukf/ape_trans.zip'' traj_G traj_A]) ''UKF'' = Some traj_A \<and>
   ''UKF'' \<in> set ALGORITHMS"
proof -
  let ?zs = "[evo_archive ''bags/run1/evo/auv0/run3_ukf/ape_trans.zip'' traj_G traj_A]"
  note c8 = C8_only_catalog_labels [of "glob_csv example_env" example_env ?zs "''bags/run1''" "''auv0''"]
  have ev: "fst (load_data (glob_csv example_env)) =
     [(''benchmark_ape_trans.csv'',
       [\<lparr>Algorithm = ''FGO'', RMSE = 1.2\<rparr>, \<lparr>Algorithm = ''TM'', RMSE = 2.0\<rparr>])]"
    by (simp add: example_env_def example_table_def bench_eval)
  have et: "est_trajs (load_trajectories ?zs) ''UKF'' = Some traj_A"
    by (simp add: traj_eval)
  from c8 have "\<forall>kv \<in> set (fst (load_data (glob_csv example_env))).
      \<forall>r \<in> set (snd kv). Algorithm r \<in> set ALGORITHMS"
    by blast
  then have tm: "''TM'' \<in> set ALGORITHMS"
    unfolding ev by simp
  from c8 have "dom (est_trajs (load_trajectories ?zs)) \<subseteq> set ALGORITHMS"
    by blast
  with et have ukf: "''UKF'' \<in> set ALGORITHMS" by blast
  from ev tm et ukf show ?thesis by blast
qed

end
